theory Spec2Isabelle
  imports Complex_Main "HOL-Library.Multiset" "HOL-Library.Product_Lexorder"
    "HOL-Library.List_Lexorder" "HOL-Library.Char_ord" "HOL-Library.Option_ord"
begin

section \<open>Label layout: \<open>labels.py\<close>\<close>

text \<open>
  A label is a pair of its text and its vertical position. Positions are Python floats;
  they are modelled as real numbers, so the rounding of \<open>prev_y + min_distance\<close> is not
  part of the model, and NaN positions are excluded (the caller, \<open>get_endpoint_positions\<close>,
  filters them out).
\<close>

type_synonym label = "string \<times> real"

text \<open>
  One iteration of the loop \<open>for i, (text, y) in enumerate(sorted_labels)\<close> on the
  accumulator \<open>adjusted\<close>. For \<open>i \<noteq> 0\<close> the accumulator already holds an entry, so
  \<open>adjusted[-1]\<close> is the last element.
\<close>

fun collision_step :: "real \<Rightarrow> label list \<Rightarrow> nat \<times> label \<Rightarrow> label list" where
  "collision_step min_distance adjusted (i, (text, y)) =
     (if i = 0 then adjusted @ [(text, y)]
      else
        let prev_y = snd (last adjusted) in
        if y - prev_y < min_distance
        then (let new_y = prev_y + min_distance in adjusted @ [(text, new_y)])
        else adjusted @ [(text, y)])"

text \<open>
  \<open>detect_label_collisions(labels, min_distance)\<close>: lists of at most one label are
  returned as they are; otherwise the labels are sorted by position (Python's \<open>sorted\<close>
  is stable, as \<open>sort_key\<close> is) and the loop runs over the sorted list.
\<close>

definition detect_label_collisions :: "label list \<Rightarrow> real \<Rightarrow> label list" where
  "detect_label_collisions labels min_distance =
     (if length labels \<le> 1 then labels
      else
        let sorted_labels = sort_key snd labels in
        foldl (collision_step min_distance) [] (enumerate 0 sorted_labels))"

text \<open>
  The exceptions of the package. Every \<open>raise\<close> of \<open>data.py\<close> is a \<open>ValueError\<close> with
  its own message; the constructors name the raise sites.
\<close>

datatype error =
    EmptyDataFrame
  | MissingRequiredColumns "string list"
  | NeitherRankNorValue
  | RankColumnNotFound string
  | ValueColumnNotFound string
  | AllRanksNaN
  | NegativeRank
  | DuplicateEntityTime

text \<open>
  The specification's taxonomy of these errors: a duplicated (time, entity) pair is a
  \<open>DuplicateKey\<close>, every other failure an \<open>InvalidInput\<close>.
\<close>

datatype error_kind = InvalidInput | DuplicateKey

fun kind_of :: "error \<Rightarrow> error_kind" where
  "kind_of DuplicateEntityTime = DuplicateKey"
| "kind_of _ = InvalidInput"

text \<open>
  The outcome of a call of \<open>detect_label_collisions\<close>. Its body has no \<open>raise\<close>
  statement and no check of \<open>min_distance\<close>, and \<open>len\<close>, \<open>sorted\<close>, \<open>enumerate\<close> and
  \<open>append\<close> do not fail on a list of labels: every call returns its list.
\<close>

definition detect_label_collisions_outcome :: "label list \<Rightarrow> real \<Rightarrow> error + label list" where
  "detect_label_collisions_outcome labels min_distance =
     Inr (detect_label_collisions labels min_distance)"

text \<open>
  The loop after its first iteration, as a recursion on the remaining sorted labels with
  the previous adjusted position: used to reason about the fold.
\<close>

fun push_down :: "real \<Rightarrow> real \<Rightarrow> label list \<Rightarrow> label list" where
  "push_down d prev_y [] = []"
| "push_down d prev_y ((text, y) # rest) =
     (if y - prev_y < d
      then (text, prev_y + d) # push_down d (prev_y + d) rest
      else (text, y) # push_down d y rest)"

section \<open>Rank derivation: \<open>data.py\<close>\<close>

text \<open>
  A DataFrame is modelled by the names of its columns and its rows, in index order. A row
  holds the cells of the four columns a call selects: the time column, the entity column,
  the value column and the rank column. A numeric cell is a float or NaN, modelled as
  \<open>real option\<close> with \<open>None\<close> for NaN (an absent value). A time cell may be absent
  as well (NaN or \<open>None\<close> in the time column): it is a \<open>'t option\<close>. An entity cell is
  a value of the entity type; the duplicate check compares entity cells for equality
  only. That the argument is a DataFrame (the \<open>TypeError\<close> of \<open>validate_dataframe\<close>)
  is fixed by the type. The time and entity columns are taken not to be the column
  \<open>_rank\<close> that \<open>prepare_data\<close> writes.
\<close>

record ('t, 'e) row =
  time_of :: "'t option"
  entity_of :: 'e
  value_of :: "real option"
  rank_of :: "real option"

record ('t, 'e) dataframe =
  columns :: "string list"
  rows :: "('t, 'e) row list"

datatype tie_method = TieAverage | TieMin | TieMax | TieFirst | TieDense

text \<open>\<open>df.empty\<close>: an axis of the frame has length zero.\<close>

definition df_empty :: "('t, 'e) dataframe \<Rightarrow> bool" where
  "df_empty df = (rows df = [] \<or> columns df = [])"

text \<open>\<open>validate_dataframe\<close>, check by check in the order of the source.\<close>

definition validate_dataframe ::
  "('t, 'e) dataframe \<Rightarrow> string \<Rightarrow> string \<Rightarrow> string option \<Rightarrow> string option \<Rightarrow> error + unit" where
  "validate_dataframe df time_col entity_col rank_col value_col =
     (if df_empty df then Inl EmptyDataFrame
      else
        let required_cols = [time_col, entity_col];
            missing = filter (\<lambda>col. col \<notin> set (columns df)) required_cols
        in
        if missing \<noteq> [] then Inl (MissingRequiredColumns missing)
        else if rank_col = None \<and> value_col = None then Inl NeitherRankNorValue
        else if rank_col \<noteq> None \<and> the rank_col \<notin> set (columns df)
          then Inl (RankColumnNotFound (the rank_col))
        else if value_col \<noteq> None \<and> the value_col \<notin> set (columns df)
          then Inl (ValueColumnNotFound (the value_col))
        else Inr ())"

text \<open>
  Modelled from the spec: the grouped rank primitive of the dataframe library, which
  \<open>calculate_ranks\<close> calls as
  \<open>df.groupby(time_col)[value_col].rank(method=method, ascending=ascending, na_option="bottom")\<close>
  and which is not part of the repository. The definitions from \<open>rank_key\<close> to
  \<open>grouped_rank\<close> follow section 4.1 of the specification, step by step.

  Step 1, the sort key of a value: absent values come after all present values in both
  directions; present values are compared by value (ascending) or by negated value
  (descending). Keys are ordered lexicographically.
\<close>

definition rank_key :: "bool \<Rightarrow> real option \<Rightarrow> nat \<times> real" where
  "rank_key ascending v =
     (case v of None \<Rightarrow> (1, 0) | Some x \<Rightarrow> (0, if ascending then x else - x))"

text \<open>
  Modelled from the spec: steps 2 and 3. In a group sorted by key, position \<open>p\<close>
  (from 0) has competition rank \<open>p + 1\<close>; \<open>tied_ranks ks p\<close> are the competition ranks
  of the positions whose key equals the key at \<open>p\<close>. The tie methods: the mean of the
  tied ranks, their smallest, their largest, the position's own rank (the sort is stable,
  so ties are in input order), and the number of distinct keys met up to the position.
\<close>

definition tied_ranks :: "'k list \<Rightarrow> nat \<Rightarrow> nat list" where
  "tied_ranks ks p = map Suc (filter (\<lambda>q. ks ! q = ks ! p) [0..<length ks])"

fun tie_rank :: "tie_method \<Rightarrow> 'k list \<Rightarrow> nat \<Rightarrow> real" where
  "tie_rank TieAverage ks p = real (sum_list (tied_ranks ks p)) / real (length (tied_ranks ks p))"
| "tie_rank TieMin ks p = real (Min (set (tied_ranks ks p)))"
| "tie_rank TieMax ks p = real (Max (set (tied_ranks ks p)))"
| "tie_rank TieFirst ks p = real (Suc p)"
| "tie_rank TieDense ks p = real (length (remdups (take (Suc p) ks)))"

text \<open>
  Modelled from the spec: the groups. An observation is a pair of its time cell and its
  value; a group holds the input positions of the observations of one time period, in
  input order, and is sorted by key with a stable sort. An observation whose time cell
  is absent belongs to no group (\<open>groupby\<close> drops absent keys, its default).
\<close>

definition group_members :: "('t option \<times> real option) list \<Rightarrow> 't \<Rightarrow> nat list" where
  "group_members obs t = filter (\<lambda>j. fst (obs ! j) = Some t) [0..<length obs]"

definition sorted_group :: "('t option \<times> real option) list \<Rightarrow> bool \<Rightarrow> 't \<Rightarrow> nat list" where
  "sorted_group obs ascending t =
     sort_key (\<lambda>j. rank_key ascending (snd (obs ! j))) (group_members obs t)"

definition group_keys :: "('t option \<times> real option) list \<Rightarrow> bool \<Rightarrow> 't \<Rightarrow> (nat \<times> real) list" where
  "group_keys obs ascending t =
     map (\<lambda>j. rank_key ascending (snd (obs ! j))) (sorted_group obs ascending t)"

text \<open>
  Modelled from the spec: the ranks of one group, each paired with the input position it
  belongs to.
\<close>

definition group_ranks ::
  "('t option \<times> real option) list \<Rightarrow> tie_method \<Rightarrow> bool \<Rightarrow> 't \<Rightarrow> (nat \<times> real) list" where
  "group_ranks obs method ascending t =
     map (\<lambda>p. (sorted_group obs ascending t ! p, tie_rank method (group_keys obs ascending t) p))
       [0..<length (sorted_group obs ascending t)]"

text \<open>
  Modelled from the spec: step 4. The result has one cell per input row, NaN until
  written; every rank is written to the input position of its observation. The time
  periods are the time cells that are present, so the cell of an observation whose time
  cell is absent stays NaN.
\<close>

definition scatter :: "(nat \<times> real) list \<Rightarrow> real option list \<Rightarrow> real option list" where
  "scatter assigned out = fold (\<lambda>(j, r) acc. acc[j := Some r]) assigned out"

definition time_periods :: "('t option \<times> real option) list \<Rightarrow> 't list" where
  "time_periods obs = remdups (map the (filter (\<lambda>t. t \<noteq> None) (map fst obs)))"

definition grouped_rank ::
  "('t option \<times> real option) list \<Rightarrow> tie_method \<Rightarrow> bool \<Rightarrow> real option list" where
  "grouped_rank obs method ascending =
     scatter (concat (map (group_ranks obs method ascending) (time_periods obs)))
       (replicate (length obs) None)"

text \<open>
  \<open>calculate_ranks\<close>: the time and value columns of the frame, ranked per time period.
  The column names of the source select the \<open>time_of\<close> and \<open>value_of\<close> cells.
\<close>

definition observations :: "('t, 'e) dataframe \<Rightarrow> ('t option \<times> real option) list" where
  "observations df = map (\<lambda>r. (time_of r, value_of r)) (rows df)"

definition calculate_ranks :: "('t, 'e) dataframe \<Rightarrow> bool \<Rightarrow> tie_method \<Rightarrow> real option list" where
  "calculate_ranks df ascending method = grouped_rank (observations df) method ascending"

text \<open>
  \<open>_validate_ranks\<close> on the rows and their \<open>_rank\<close> column: all ranks NaN, then a
  negative rank among those present, then a (time, entity) pair that occurs twice.
\<close>

definition validate_ranks :: "('t, 'e) row list \<Rightarrow> real option list \<Rightarrow> error + unit" where
  "validate_ranks rs ranks =
     (if list_all (\<lambda>r. r = None) ranks then Inl AllRanksNaN
      else
        let valid_ranks = map the (filter (\<lambda>r. r \<noteq> None) ranks) in
        if list_ex (\<lambda>r. r < 0) valid_ranks then Inl NegativeRank
        else if \<not> distinct (map (\<lambda>r. (time_of r, entity_of r)) rs) then Inl DuplicateEntityTime
        else Inr ())"

text \<open>
  \<open>prepare_data\<close>: validation, the \<open>_rank\<close> column (derived from the value column when
  one is given, else read from the rank column), validation of the ranks, and the rows
  with their rank sorted by time and entity (\<open>sort_values\<close> puts absent time cells
  last).
\<close>

definition prepare_data ::
  "('t::linorder, 'e::linorder) dataframe \<Rightarrow> string \<Rightarrow> string \<Rightarrow> string option \<Rightarrow> string option \<Rightarrow>
   bool \<Rightarrow> tie_method \<Rightarrow> error + (('t, 'e) row \<times> real option) list" where
  "prepare_data df time_col entity_col rank_col value_col ascending tie_method =
     (case validate_dataframe df time_col entity_col rank_col value_col of
        Inl e \<Rightarrow> Inl e
      | Inr _ \<Rightarrow>
          (case (if value_col \<noteq> None then Inr (calculate_ranks df ascending tie_method)
                 else if rank_col \<noteq> None then Inr (map rank_of (rows df))
                 else Inl NeitherRankNorValue) of
             Inl e \<Rightarrow> Inl e
           | Inr ranks \<Rightarrow>
               (case validate_ranks (rows df) ranks of
                  Inl e \<Rightarrow> Inl e
                | Inr _ \<Rightarrow>
                    Inr (sort_key
                      (\<lambda>(r, k). ((if time_of r = None then 1 else 0 :: nat, time_of r), entity_of r))
                      (zip (rows df) ranks)))))"

text \<open>
  Frames used as concrete inputs below: the frame of the docstring of \<open>calculate_ranks\<close>,
  the frame of \<open>test_nan_values\<close>, a frame whose values are all absent, a frame with one
  present and two absent values, a frame with a repeated (time, entity) pair, a frame
  of direct ranks that are all absent (\<open>test_all_nan_ranks\<close>), a frame without rows, a
  frame whose time cells are all absent and whose (time, entity) pair repeats, and a
  frame with one absent time cell.
\<close>

definition obs_row :: "int \<Rightarrow> string \<Rightarrow> real option \<Rightarrow> (int, string) row" where
  "obs_row t e v = \<lparr>time_of = Some t, entity_of = e, value_of = v, rank_of = None\<rparr>"

definition untimed_row :: "string \<Rightarrow> real option \<Rightarrow> (int, string) row" where
  "untimed_row e v = \<lparr>time_of = None, entity_of = e, value_of = v, rank_of = None\<rparr>"

definition scores_frame :: "(int, string) dataframe" where
  "scores_frame = \<lparr>columns = [''year'', ''team'', ''score''],
     rows = [obs_row 2020 ''A'' (Some 100), obs_row 2020 ''B'' (Some 80),
             obs_row 2020 ''C'' (Some 90)]\<rparr>"

definition nan_frame :: "(int, string) dataframe" where
  "nan_frame = \<lparr>columns = [''year'', ''team'', ''score''],
     rows = [obs_row 2020 ''A'' (Some 100), obs_row 2020 ''B'' None,
             obs_row 2020 ''C'' (Some 80)]\<rparr>"

definition all_absent_frame :: "(int, string) dataframe" where
  "all_absent_frame = \<lparr>columns = [''year'', ''team'', ''score''],
     rows = [obs_row 2020 ''A'' None, obs_row 2020 ''B'' None]\<rparr>"

definition two_absent_frame :: "(int, string) dataframe" where
  "two_absent_frame = \<lparr>columns = [''year'', ''team'', ''score''],
     rows = [obs_row 2020 ''A'' (Some 10), obs_row 2020 ''B'' None,
             obs_row 2020 ''C'' None]\<rparr>"

definition duplicate_frame :: "(int, string) dataframe" where
  "duplicate_frame = \<lparr>columns = [''year'', ''team'', ''score''],
     rows = [obs_row 2020 ''A'' (Some 1), obs_row 2020 ''A'' (Some 2),
             obs_row 2020 ''B'' (Some 3)]\<rparr>"

definition nan_ranks_frame :: "(int, string) dataframe" where
  "nan_ranks_frame = \<lparr>columns = [''year'', ''team'', ''rank''],
     rows = [obs_row 2020 ''A'' None, obs_row 2020 ''B'' None]\<rparr>"

definition no_rows_frame :: "(int, string) dataframe" where
  "no_rows_frame = \<lparr>columns = [''year'', ''team'', ''score''], rows = []\<rparr>"

definition untimed_frame :: "(int, string) dataframe" where
  "untimed_frame = \<lparr>columns = [''year'', ''team'', ''score''],
     rows = [untimed_row ''A'' (Some 1), untimed_row ''A'' (Some 2)]\<rparr>"

definition partly_timed_frame :: "(int, string) dataframe" where
  "partly_timed_frame = \<lparr>columns = [''year'', ''team'', ''score''],
     rows = [obs_row 2020 ''A'' (Some 100), untimed_row ''B'' (Some 90),
             obs_row 2020 ''C'' (Some 80)]\<rparr>"

section \<open>The loop as a recursion\<close>

lemma collision_fold_push:
  "adjusted \<noteq> [] \<Longrightarrow>
   foldl (collision_step d) adjusted (enumerate (Suc k) xs) =
   adjusted @ push_down d (snd (last adjusted)) xs"
proof (induction xs arbitrary: adjusted k)
  case Nil
  then show ?case by simp
next
  case (Cons x xs)
  obtain lbl y where x: "x = (lbl, y)" by (cases x)
  show ?case
  proof (cases "y - snd (last adjusted) < d")
    case True
    have "foldl (collision_step d) adjusted (enumerate (Suc k) (x # xs)) =
          foldl (collision_step d) (adjusted @ [(lbl, snd (last adjusted) + d)])
            (enumerate (Suc (Suc k)) xs)"
      using True x by (simp add: Let_def)
    also have "\<dots> = (adjusted @ [(lbl, snd (last adjusted) + d)]) @
          push_down d (snd (last adjusted) + d) xs"
      using Cons.IH [of "adjusted @ [(lbl, snd (last adjusted) + d)]" "Suc k"] by simp
    finally show ?thesis using True x by simp
  next
    case False
    have "foldl (collision_step d) adjusted (enumerate (Suc k) (x # xs)) =
          foldl (collision_step d) (adjusted @ [(lbl, y)]) (enumerate (Suc (Suc k)) xs)"
      using False x by (simp add: Let_def)
    also have "\<dots> = (adjusted @ [(lbl, y)]) @ push_down d y xs"
      using Cons.IH [of "adjusted @ [(lbl, y)]" "Suc k"] by simp
    finally show ?thesis using False x by simp
  qed
qed

lemma collision_fold_sorted:
  "foldl (collision_step d) [] (enumerate 0 (x # xs)) = x # push_down d (snd x) xs"
proof -
  obtain lbl y where x: "x = (lbl, y)" by (cases x)
  have "foldl (collision_step d) [] (enumerate 0 (x # xs)) =
        foldl (collision_step d) [(lbl, y)] (enumerate (Suc 0) xs)"
    using x by simp
  also have "\<dots> = [(lbl, y)] @ push_down d (snd (last [(lbl, y)])) xs"
    by (rule collision_fold_push) simp
  finally show ?thesis using x by simp
qed

lemma detect_unfold:
  "detect_label_collisions labels d =
     (if length labels \<le> 1 then labels
      else (case sort_key snd labels of
              [] \<Rightarrow> []
            | x # xs \<Rightarrow> x # push_down d (snd x) xs))"
  using collision_fold_sorted [of d]
  by (auto simp add: detect_label_collisions_def Let_def split: list.split)

lemma push_down_map_fst: "map fst (push_down d p xs) = map fst xs"
  by (induction d p xs rule: push_down.induct) auto

lemma push_down_length: "length (push_down d p xs) = length xs"
  by (induction d p xs rule: push_down.induct) auto

lemma push_down_gaps:
  "successively (\<lambda>a b. d \<le> snd b - snd a) ((l, p) # push_down d p xs)"
  by (induction d p xs arbitrary: l rule: push_down.induct) (auto simp: successively_Cons)

lemma push_down_idem: "push_down d p (push_down d p xs) = push_down d p xs"
  by (induction d p xs rule: push_down.induct) auto

lemma push_down_nonpos:
  "d \<le> 0 \<Longrightarrow> sorted (p # map snd xs) \<Longrightarrow> push_down d p xs = xs"
  by (induction d p xs rule: push_down.induct) auto

lemma gaps_sorted:
  "0 \<le> (d::real) \<Longrightarrow> successively (\<lambda>a b. d \<le> snd b - snd a) ys \<Longrightarrow> sorted (map snd ys)"
proof -
  assume d: "0 \<le> d" and g: "successively (\<lambda>a b. d \<le> snd b - snd a) ys"
  have "map snd ys ! i \<le> map snd ys ! Suc i" if "Suc i < length (map snd ys)" for i
  proof -
    have "d \<le> snd (ys ! Suc i) - snd (ys ! i)"
      using successively_nth [OF g, of i] that by simp
    then show ?thesis using d that by simp
  qed
  then show ?thesis by (simp only: sorted_iff_nth_Suc) blast
qed

lemma detect_gaps: "successively (\<lambda>a b. d \<le> snd b - snd a) (detect_label_collisions labels d)"
proof (cases "length labels \<le> 1")
  case True
  then show ?thesis
    by (simp add: detect_unfold successively_conv_nth)
next
  case False
  then obtain x xs where s: "sort_key snd labels = x # xs"
    by (cases "sort_key snd labels") (auto dest: arg_cong [where f = length])
  show ?thesis
    using False s push_down_gaps [of d "fst x" "snd x" xs] by (simp add: detect_unfold)
qed

lemma detect_sorted: "sorted (map snd (detect_label_collisions labels d)) \<or> length labels \<le> 1"
proof (cases "length labels \<le> 1")
  case True then show ?thesis by simp
next
  case False
  then obtain x xs where s: "sort_key snd labels = x # xs"
    by (cases "sort_key snd labels") (auto dest: arg_cong [where f = length])
  have srt: "sorted (map snd (x # xs))"
    using sorted_sort_key [of snd labels] s by simp
  show ?thesis
  proof (cases "0 \<le> d")
    case True
    then show ?thesis using gaps_sorted [OF True detect_gaps] by simp
  next
    case neg: False
    then have "push_down d (snd x) xs = xs"
      using push_down_nonpos [of d "snd x" xs] srt by simp
    then show ?thesis using False s srt by (simp add: detect_unfold)
  qed
qed

lemma detect_idem:
  "detect_label_collisions (detect_label_collisions labels d) d = detect_label_collisions labels d"
proof (cases "length labels \<le> 1")
  case True
  then show ?thesis by (simp add: detect_unfold)
next
  case False
  then obtain x xs where s: "sort_key snd labels = x # xs"
    by (cases "sort_key snd labels") (auto dest: arg_cong [where f = length])
  let ?out = "detect_label_collisions labels d"
  have out: "?out = x # push_down d (snd x) xs"
    using False s by (simp add: detect_unfold)
  have len: "length ?out = length labels"
    using arg_cong [OF s, of length] by (simp add: out push_down_length)
  have "sorted (map snd ?out)" using detect_sorted [of labels d] False by simp
  then have id: "sort_key snd ?out = ?out" by (rule sort_key_id_if_sorted)
  have "detect_label_collisions ?out d =
        (if length ?out \<le> 1 then ?out
         else (case sort_key snd ?out of [] \<Rightarrow> [] | y # ys \<Rightarrow> y # push_down d (snd y) ys))"
    by (rule detect_unfold)
  also have "\<dots> = (case ?out of [] \<Rightarrow> [] | y # ys \<Rightarrow> y # push_down d (snd y) ys)"
    using False by (simp only: id len if_False)
  also have "\<dots> = x # push_down d (snd x) (push_down d (snd x) xs)"
    by (simp add: out)
  finally show ?thesis by (simp add: push_down_idem out)
qed


section \<open>Properties of the label layout\<close>

text \<open>
  C1 (as stated, refuted): the claim says a negative \<open>min_separation\<close> is rejected with
  InvalidInput. The resolver has no such check: at \<open>min_distance = -1\<close> it returns the
  labels, sorted.
\<close>

theorem negative_separation_accepted:
  "detect_label_collisions_outcome [(''X'', 2), (''Y'', 1)] (- 1) = Inr [(''Y'', 1), (''X'', 2)]"
  by (simp add: detect_label_collisions_outcome_def detect_label_collisions_def)

text \<open>
  C1 (amended): \<open>detect_label_collisions\<close> has no error condition at all. It raises no
  error for any \<open>min_separation\<close>, negative ones included, and with a negative
  \<open>min_separation\<close> it returns the labels sorted by position with no position changed.
\<close>

theorem detect_label_collisions_no_error:
  "(\<forall>e. detect_label_collisions_outcome labels d \<noteq> Inl e) \<and>
   (d < 0 \<longrightarrow> detect_label_collisions labels d = sort_key snd labels)"
proof -
  have "detect_label_collisions labels d = sort_key snd labels" if neg: "d < 0"
  proof (cases "length labels \<le> 1")
    case True
    then have "sorted (map snd labels)"
      by (simp add: sorted_iff_nth_Suc)
    then have "sort_key snd labels = labels" by (rule sort_key_id_if_sorted)
    then show ?thesis using True by (simp add: detect_unfold)
  next
    case False
    then obtain x xs where s: "sort_key snd labels = x # xs"
      by (cases "sort_key snd labels") (auto dest: arg_cong [where f = length])
    have "sorted (map snd (x # xs))"
      using sorted_sort_key [of snd labels] s by simp
    then have "push_down d (snd x) xs = xs"
      using push_down_nonpos [of d "snd x" xs] neg by simp
    then show ?thesis using False s by (simp add: detect_unfold)
  qed
  then show ?thesis by (simp add: detect_label_collisions_outcome_def)
qed

theorem detect_label_collisions_no_error_witness:
  "(- 1 :: real) < 0 \<and>
   detect_label_collisions [(''X'', 2), (''Y'', 1)] (- 1) = sort_key snd [(''X'', 2), (''Y'', 1 :: real)]"
proof -
  have h: "(- 1 :: real) < 0" by simp
  from detect_label_collisions_no_error [of "[(''X'', 2), (''Y'', 1)]" "- 1"] h
  show ?thesis by blast
qed

text \<open>
  C3: for every list of labels and every \<open>min_separation \<ge> 0\<close>, the output is in
  ascending order of adjusted position and each entry lies at least \<open>min_separation\<close>
  above the entry before it.
\<close>

theorem label_separation:
  assumes "0 \<le> d"
  shows "sorted (map snd (detect_label_collisions labels d)) \<and>
         (\<forall>i. Suc i < length (detect_label_collisions labels d) \<longrightarrow>
              d \<le> snd (detect_label_collisions labels d ! Suc i) -
                    snd (detect_label_collisions labels d ! i))"
proof -
  have g: "successively (\<lambda>a b. d \<le> snd b - snd a) (detect_label_collisions labels d)"
    by (rule detect_gaps)
  have "sorted (map snd (detect_label_collisions labels d))"
    using assms g by (rule gaps_sorted)
  moreover have "d \<le> snd (detect_label_collisions labels d ! Suc i) -
                    snd (detect_label_collisions labels d ! i)"
    if "Suc i < length (detect_label_collisions labels d)" for i
    using successively_nth [OF g that] .
  ultimately show ?thesis by blast
qed

theorem label_separation_witness:
  "(0 :: real) \<le> 1 / 2 \<and>
   Suc 0 < length (detect_label_collisions [(''X'', 1), (''Y'', 11 / 10), (''Z'', 115 / 100)] (1 / 2)) \<and>
   1 / 2 \<le> snd (detect_label_collisions [(''X'', 1), (''Y'', 11 / 10), (''Z'', 115 / 100)] (1 / 2) ! Suc 0) -
            snd (detect_label_collisions [(''X'', 1), (''Y'', 11 / 10), (''Z'', 115 / 100)] (1 / 2) ! 0)"
proof -
  have h: "(0 :: real) \<le> 1 / 2" by simp
  have len: "Suc 0 < length (detect_label_collisions [(''X'', 1), (''Y'', 11 / 10), (''Z'', 115 / 100)] (1 / 2))"
    by (simp add: detect_label_collisions_def)
  from label_separation [OF h, of "[(''X'', 1), (''Y'', 11 / 10), (''Z'', 115 / 100)]"] len h
  show ?thesis by blast
qed

text \<open>
  C4: for every non-empty list of labels, the first entry of the output is an entry of
  the input, text and position unchanged, and its position is the minimum of the input
  positions: the lowest label anchors the layout.
\<close>

theorem label_anchor:
  assumes "labels \<noteq> []"
  shows "hd (detect_label_collisions labels d) \<in> set labels \<and>
         snd (hd (detect_label_collisions labels d)) = Min (snd ` set labels)"
proof -
  obtain x xs where s: "sort_key snd labels = x # xs"
    using assms by (cases "sort_key snd labels") (auto dest: arg_cong [where f = length])
  have mem: "x \<in> set labels"
    using set_sort [of snd labels] s by auto
  have "sorted (map snd (x # xs))"
    using sorted_sort_key [of snd labels] s by simp
  then have "\<forall>y \<in> set (x # xs). snd x \<le> snd y" by auto
  moreover have "set (x # xs) = set labels"
    using set_sort [of snd labels] s by simp
  ultimately have low: "\<forall>y \<in> set labels. snd x \<le> snd y"
    by blast
  have hd_out: "hd (detect_label_collisions labels d) = x"
  proof (cases "length labels \<le> 1")
    case True
    then obtain y where "labels = [y]"
      using assms by (cases labels) auto
    then show ?thesis using s by (simp add: detect_unfold)
  next
    case False
    then show ?thesis using s by (simp add: detect_unfold)
  qed
  have "Min (snd ` set labels) = snd x"
    using mem low by (intro Min_eqI) auto
  then show ?thesis using hd_out mem by simp
qed

theorem label_anchor_witness:
  "[(''X'', 3), (''Y'', 1), (''Z'', 2 :: real)] \<noteq> [] \<and>
   hd (detect_label_collisions [(''X'', 3), (''Y'', 1), (''Z'', 2)] (1 / 2)) \<in>
     set [(''X'', 3), (''Y'', 1), (''Z'', 2)] \<and>
   snd (hd (detect_label_collisions [(''X'', 3), (''Y'', 1), (''Z'', 2)] (1 / 2))) =
     Min (snd ` set [(''X'', 3), (''Y'', 1), (''Z'', 2 :: real)])"
proof -
  have h: "[(''X'', 3), (''Y'', 1), (''Z'', 2 :: real)] \<noteq> []" by simp
  from label_anchor [OF h, of "1 / 2"] h show ?thesis by blast
qed

text \<open>
  C5: \<open>detect_label_collisions\<close> is idempotent: for every list of labels and every
  \<open>min_separation\<close>, resolving the resolved list again with the same \<open>min_separation\<close>
  gives the same list.
\<close>

theorem label_idempotent:
  "detect_label_collisions (detect_label_collisions labels d) d =
   detect_label_collisions labels d"
  by (rule detect_idem)

text \<open>
  C10: for every list of labels and every \<open>min_separation\<close>, the output has the length
  of the input and the same multiset of label texts: no entry is dropped or duplicated.
\<close>

theorem label_texts_preserved:
  "length (detect_label_collisions labels d) = length labels \<and>
   mset (map fst (detect_label_collisions labels d)) = mset (map fst labels)"
proof (cases "length labels \<le> 1")
  case True
  then show ?thesis by (simp add: detect_unfold)
next
  case False
  then obtain x xs where s: "sort_key snd labels = x # xs"
    by (cases "sort_key snd labels") (auto dest: arg_cong [where f = length])
  have out: "detect_label_collisions labels d = x # push_down d (snd x) xs"
    using False s by (simp add: detect_unfold)
  have "map fst (detect_label_collisions labels d) = map fst (sort_key snd labels)"
    by (simp add: out s push_down_map_fst)
  then have "mset (map fst (detect_label_collisions labels d)) = mset (map fst labels)"
    by simp
  moreover have "length (detect_label_collisions labels d) = length labels"
    using arg_cong [OF s, of length] by (simp add: out push_down_length)
  ultimately show ?thesis by simp
qed


section \<open>The grouped ranks\<close>

lemma length_scatter: "length (scatter xs out) = length out"
  unfolding scatter_def by (induction xs arbitrary: out) (auto split: prod.splits)

lemma scatter_Cons: "scatter ((j, r) # xs) out = scatter xs (out[j := Some r])"
  by (simp add: scatter_def)

lemma scatter_Nil: "scatter [] out = out"
  by (simp add: scatter_def)

lemma scatter_notin: "j \<notin> fst ` set xs \<Longrightarrow> scatter xs out ! j = out ! j"
proof (induction xs arbitrary: out)
  case Nil
  then show ?case by (simp add: scatter_Nil)
next
  case (Cons x xs)
  obtain k r where x: "x = (k, r)" by (cases x)
  from Cons.prems x have "j \<noteq> k" and "j \<notin> fst ` set xs" by auto
  then show ?case using Cons.IH [of "out[k := Some r]"] x by (simp add: scatter_Cons)
qed

lemma scatter_nth:
  "distinct (map fst xs) \<Longrightarrow> (j, r) \<in> set xs \<Longrightarrow> j < length out \<Longrightarrow>
   scatter xs out ! j = Some r"
proof (induction xs arbitrary: out)
  case Nil
  then show ?case by simp
next
  case (Cons x xs)
  obtain k s where x: "x = (k, s)" by (cases x)
  show ?case
  proof (cases "(j, r) = x")
    case True
    then have "j \<notin> fst ` set xs" using Cons.prems(1) x by force
    then have "scatter xs (out[j := Some r]) ! j = (out[j := Some r]) ! j"
      by (rule scatter_notin)
    then show ?thesis using True x Cons.prems(3) by (simp add: scatter_Cons)
  next
    case False
    then have mem: "(j, r) \<in> set xs" using Cons.prems(2) by simp
    have dist: "distinct (map fst xs)" using Cons.prems(1) by simp
    have len: "j < length (out[k := Some s])" using Cons.prems(3) by simp
    have "scatter xs (out[k := Some s]) ! j = Some r"
      using dist mem len by (rule Cons.IH)
    then show ?thesis using x by (simp add: scatter_Cons)
  qed
qed

lemma set_group_members:
  "set (group_members obs t) = {j. j < length obs \<and> fst (obs ! j) = Some t}"
  by (auto simp: group_members_def)

lemma distinct_group_members: "distinct (group_members obs t)"
  by (simp add: group_members_def)

lemma set_sorted_group:
  "set (sorted_group obs asc t) = {j. j < length obs \<and> fst (obs ! j) = Some t}"
  by (simp add: sorted_group_def set_group_members)

lemma distinct_sorted_group: "distinct (sorted_group obs asc t)"
  by (simp add: sorted_group_def distinct_group_members)

lemma sorted_group_keys: "sorted (group_keys obs asc t)"
  by (simp add: group_keys_def sorted_group_def)

lemma length_group_keys: "length (group_keys obs asc t) = length (sorted_group obs asc t)"
  by (simp add: group_keys_def)

lemma group_keys_nth:
  "p < length (sorted_group obs asc t) \<Longrightarrow>
   group_keys obs asc t ! p = rank_key asc (snd (obs ! (sorted_group obs asc t ! p)))"
  by (simp add: group_keys_def)

lemma map_fst_group_ranks: "map fst (group_ranks obs m asc t) = sorted_group obs asc t"
  by (simp add: group_ranks_def comp_def map_nth)

lemma set_time_periods:
  "set (time_periods obs) = {t. \<exists>j < length obs. fst (obs ! j) = Some t}"
proof (rule set_eqI)
  fix t
  have "t \<in> set (time_periods obs) \<longleftrightarrow> Some t \<in> set (map fst obs)"
    by (force simp: time_periods_def image_iff)
  also have "\<dots> \<longleftrightarrow> (\<exists>j < length (map fst obs). map fst obs ! j = Some t)"
    by (simp only: in_set_conv_nth)
  also have "\<dots> \<longleftrightarrow> (\<exists>j < length obs. fst (obs ! j) = Some t)"
    by auto
  finally show "t \<in> set (time_periods obs) \<longleftrightarrow> t \<in> {t. \<exists>j < length obs. fst (obs ! j) = Some t}"
    by simp
qed

lemma distinct_time_periods: "distinct (time_periods obs)"
  by (simp add: time_periods_def)

lemma map_fst_assigned:
  "map fst (concat (map (group_ranks obs m asc) (time_periods obs))) =
   concat (map (sorted_group obs asc) (time_periods obs))"
  by (simp add: map_concat comp_def map_fst_group_ranks)

lemma distinct_assigned:
  "distinct (map fst (concat (map (group_ranks obs m asc) (time_periods obs))))"
proof -
  let ?ts = "time_periods obs"
  have eq: "map fst (concat (map (group_ranks obs m asc) ?ts)) =
            concat (map (sorted_group obs asc) ?ts)"
    by (simp add: map_concat comp_def map_fst_group_ranks)
  have inj: "inj_on (sorted_group obs asc) (set ?ts)"
  proof (rule inj_onI)
    fix s t assume s: "s \<in> set ?ts" and t: "t \<in> set ?ts"
      and e: "sorted_group obs asc s = sorted_group obs asc t"
    from s obtain j where j: "j < length obs" "fst (obs ! j) = Some s"
      by (auto simp: set_time_periods)
    then have "j \<in> set (sorted_group obs asc s)" by (simp add: set_sorted_group)
    then have "j \<in> set (sorted_group obs asc t)" using e by simp
    then show "s = t" using j by (simp add: set_sorted_group)
  qed
  have "distinct (concat (map (sorted_group obs asc) ?ts))"
  proof (rule distinct_concat)
    show "distinct (map (sorted_group obs asc) ?ts)"
      using inj by (simp add: distinct_map distinct_time_periods)
  next
    fix ys assume "ys \<in> set (map (sorted_group obs asc) ?ts)"
    then show "distinct ys" by (auto simp: distinct_sorted_group)
  next
    fix ys zs
    assume "ys \<in> set (map (sorted_group obs asc) ?ts)"
      and "zs \<in> set (map (sorted_group obs asc) ?ts)" and "ys \<noteq> zs"
    then show "set ys \<inter> set zs = {}" by (auto simp: set_sorted_group)
  qed
  then show ?thesis using eq by simp
qed

lemma length_grouped_rank: "length (grouped_rank obs m asc) = length obs"
  by (simp add: grouped_rank_def length_scatter)

lemma grouped_rank_absent:
  assumes "i < length obs" and "fst (obs ! i) = None"
  shows "grouped_rank obs m asc ! i = None"
proof -
  let ?assigned = "concat (map (group_ranks obs m asc) (time_periods obs))"
  have "i \<notin> set (map fst ?assigned)"
    unfolding map_fst_assigned using assms(2) by (auto simp: set_sorted_group)
  then have "i \<notin> fst ` set ?assigned" by simp
  then have "scatter ?assigned (replicate (length obs) None) ! i =
             replicate (length obs) None ! i"
    by (rule scatter_notin)
  then show ?thesis using assms(1) by (simp add: grouped_rank_def)
qed

lemma grouped_rank_nth:
  assumes "i < length obs" and "fst (obs ! i) = Some t"
  shows "\<exists>p < length (sorted_group obs asc t).
           sorted_group obs asc t ! p = i \<and>
           grouped_rank obs m asc ! i = Some (tie_rank m (group_keys obs asc t) p)"
proof -
  let ?t = "t"
  let ?g = "sorted_group obs asc ?t"
  have "i \<in> set ?g" using assms by (simp add: set_sorted_group)
  then obtain p where p: "p < length ?g" "?g ! p = i"
    by (auto simp: in_set_conv_nth)
  let ?r = "tie_rank m (group_keys obs asc ?t) p"
  have "(i, ?r) \<in> set (group_ranks obs m asc ?t)"
    using p by (auto simp: group_ranks_def image_iff intro!: bexI [of _ p])
  moreover have "?t \<in> set (time_periods obs)"
    using assms by (auto simp: set_time_periods)
  ultimately have "(i, ?r) \<in> set (concat (map (group_ranks obs m asc) (time_periods obs)))"
    unfolding set_concat set_map by blast
  then have "grouped_rank obs m asc ! i = Some ?r"
    unfolding grouped_rank_def
    using distinct_assigned [of obs m asc] assms by (intro scatter_nth) auto
  then show ?thesis using p by blast
qed

section \<open>The tie methods\<close>

lemma tied_ranks_mem: "p < length ks \<Longrightarrow> Suc p \<in> set (tied_ranks ks p)"
  by (simp add: tied_ranks_def)

lemma tied_ranks_set:
  "set (tied_ranks ks p) = {Suc q |q. q < length ks \<and> ks ! q = ks ! p}"
  by (auto simp: tied_ranks_def)

lemma filter_eq_upt: "p < n \<Longrightarrow> filter (\<lambda>q. q = p) [0..<n] = [p]"
proof (induction n)
  case 0
  then show ?case by simp
next
  case (Suc n)
  show ?case
  proof (cases "p = n")
    case True
    then have "filter (\<lambda>q. q = p) [0..<n] = []"
      by (simp add: filter_empty_conv)
    then show ?thesis using True by simp
  next
    case False
    then have "p < n" using Suc.prems by simp
    then show ?thesis using Suc.IH False by simp
  qed
qed

lemma tied_ranks_distinct:
  assumes "distinct ks" "p < length ks"
  shows "tied_ranks ks p = [Suc p]"
proof -
  have "filter (\<lambda>q. ks ! q = ks ! p) [0..<length ks] = filter (\<lambda>q. q = p) [0..<length ks]"
    using assms by (intro filter_cong) (auto simp: nth_eq_iff_index_eq)
  also have "\<dots> = [p]"
    using assms(2) by (rule filter_eq_upt)
  finally show ?thesis by (simp add: tied_ranks_def)
qed

lemma sum_list_lower: "(\<forall>x \<in> set xs. lo \<le> x) \<Longrightarrow> lo * length xs \<le> sum_list (xs :: nat list)"
  by (induction xs) auto

lemma sum_list_upper: "(\<forall>x \<in> set xs. x \<le> hi) \<Longrightarrow> sum_list (xs :: nat list) \<le> hi * length xs"
  by (induction xs) auto

lemma average_lower:
  assumes "xs \<noteq> []" "\<forall>x \<in> set xs. lo \<le> x"
  shows "real lo \<le> real (sum_list xs) / real (length xs)"
proof -
  have "real (lo * length xs) \<le> real (sum_list xs)"
    using sum_list_lower [OF assms(2)] by (simp only: of_nat_le_iff)
  then show ?thesis using assms(1) by (simp add: le_divide_eq)
qed

lemma average_upper:
  assumes "xs \<noteq> []" "\<forall>x \<in> set xs. x \<le> hi"
  shows "real (sum_list xs) / real (length xs) \<le> real hi"
proof -
  have "real (sum_list xs) \<le> real (hi * length xs)"
    using sum_list_upper [OF assms(2)] by (simp only: of_nat_le_iff)
  then show ?thesis using assms(1) by (simp add: divide_le_eq)
qed

lemma tie_rank_distinct:
  assumes "distinct ks" "p < length ks"
  shows "tie_rank m ks p = real (Suc p)"
proof (cases m)
  case TieDense
  have "distinct (take (Suc p) ks)" using assms(1) by simp
  then have "length (remdups (take (Suc p) ks)) = length (take (Suc p) ks)"
    by (simp only: distinct_remdups_id)
  moreover have "length (take (Suc p) ks) = Suc p" using assms(2) by simp
  ultimately have "length (remdups (take (Suc p) ks)) = Suc p" by (rule trans)
  then show ?thesis using TieDense by (simp only: tie_rank.simps)
qed (use tied_ranks_distinct [OF assms] in simp_all)

lemma tie_rank_ge_1:
  assumes "p < length ks"
  shows "1 \<le> tie_rank m ks p"
proof -
  let ?T = "tied_ranks ks p"
  have ne: "?T \<noteq> []" using tied_ranks_mem [OF assms] by auto
  have pos: "\<forall>x \<in> set ?T. 1 \<le> x" by (auto simp: tied_ranks_set)
  show ?thesis
  proof (cases m)
    case TieAverage
    then show ?thesis using average_lower [OF ne pos] by simp
  next
    case TieMin
    have "Min (set ?T) \<in> set ?T" using ne by (intro Min_in) auto
    then have "1 \<le> Min (set ?T)" using pos by blast
    then have "real 1 \<le> real (Min (set ?T))" by (rule of_nat_mono)
    then show ?thesis using TieMin by simp
  next
    case TieMax
    have "Max (set ?T) \<in> set ?T" using ne by (intro Max_in) auto
    then have "1 \<le> Max (set ?T)" using pos by blast
    then have "real 1 \<le> real (Max (set ?T))" by (rule of_nat_mono)
    then show ?thesis using TieMax by simp
  next
    case TieFirst
    then show ?thesis by simp
  next
    case TieDense
    have "take (Suc p) ks \<noteq> []" using assms by auto
    then have "0 < card (set (take (Suc p) ks))" by (simp add: card_gt_0_iff)
    then have "Suc 0 \<le> length (remdups (take (Suc p) ks))"
      by (simp only: length_remdups_card_conv Suc_le_eq)
    then have "real (Suc 0) \<le> real (length (remdups (take (Suc p) ks)))"
      by (rule of_nat_mono)
    then show ?thesis using TieDense by (simp only: tie_rank.simps of_nat_Suc of_nat_0 add_0)
  qed
qed

lemma sorted_position_less:
  assumes "sorted ks" "p < length ks" "q < length ks" "ks ! p < ks ! q"
  shows "p < q"
proof (rule ccontr)
  assume "\<not> p < q"
  then have "q \<le> p" by simp
  with assms(1) have "ks ! q \<le> ks ! p" using assms(2) by (rule sorted_nth_mono)
  then show False using assms(4) by simp
qed

lemma tie_rank_less:
  assumes srt: "sorted ks" and p: "p < length ks" and q: "q < length ks"
    and less: "ks ! p < ks ! q"
  shows "tie_rank m ks p < tie_rank m ks q"
proof -
  let ?A = "tied_ranks ks p" and ?B = "tied_ranks ks q"
  have neA: "?A \<noteq> []" using tied_ranks_mem [OF p] by auto
  have neB: "?B \<noteq> []" using tied_ranks_mem [OF q] by auto
  have sep: "a < b" if "a \<in> set ?A" "b \<in> set ?B" for a b
  proof -
    from that obtain i j where i: "a = Suc i" "i < length ks" "ks ! i = ks ! p"
      and j: "b = Suc j" "j < length ks" "ks ! j = ks ! q"
      by (auto simp: tied_ranks_set)
    have "ks ! i < ks ! j" using i j less by simp
    then have "i < j" by (rule sorted_position_less [OF srt i(2) j(2)])
    then show ?thesis using i j by simp
  qed
  have maxA: "Max (set ?A) \<in> set ?A" using neA by (intro Max_in) auto
  have minB: "Min (set ?B) \<in> set ?B" using neB by (intro Min_in) auto
  have gap: "Max (set ?A) < Min (set ?B)" using sep maxA minB by blast
  show ?thesis
  proof (cases m)
    case TieAverage
    have "real (sum_list ?A) / real (length ?A) \<le> real (Max (set ?A))"
      using neA by (intro average_upper) auto
    moreover have "real (Min (set ?B)) \<le> real (sum_list ?B) / real (length ?B)"
      using neB by (intro average_lower) auto
    moreover have "real (Max (set ?A)) < real (Min (set ?B))" using gap by simp
    ultimately show ?thesis using TieAverage by simp
  next
    case TieMin
    have "Min (set ?A) \<le> Max (set ?A)" using neA by (intro Min_le maxA) auto
    then show ?thesis using TieMin gap by simp
  next
    case TieMax
    have "Min (set ?B) \<le> Max (set ?B)" using neB by (intro Max_ge minB) auto
    then show ?thesis using TieMax gap by simp
  next
    case TieFirst
    then show ?thesis using sorted_position_less [OF srt p q less] by simp
  next
    case TieDense
    have pq: "p < q" by (rule sorted_position_less [OF srt p q less])
    have sub: "set (take (Suc p) ks) \<subseteq> set (take (Suc q) ks)"
      using pq by (intro set_take_subset_set_take) simp
    have inq: "ks ! q \<in> set (take (Suc q) ks)"
      using q by (auto simp: in_set_conv_nth intro!: exI [of _ q])
    have notp: "ks ! q \<notin> set (take (Suc p) ks)"
    proof
      assume "ks ! q \<in> set (take (Suc p) ks)"
      then obtain i where i: "i < Suc p" "i < length ks" "ks ! i = ks ! q"
        by (auto simp: in_set_conv_nth)
      have "i \<le> p" using i(1) by simp
      with srt have "ks ! i \<le> ks ! p" using p by (rule sorted_nth_mono)
      then show False using i(3) less by simp
    qed
    have "set (take (Suc p) ks) \<subset> set (take (Suc q) ks)"
      using sub inq notp by blast
    then have "card (set (take (Suc p) ks)) < card (set (take (Suc q) ks))"
      by (intro psubset_card_mono) auto
    then show ?thesis using TieDense by (simp add: length_remdups_card_conv)
  qed
qed

lemma rank_key_inj: "rank_key asc v = rank_key asc w \<Longrightarrow> v = w"
  by (auto simp: rank_key_def split: option.splits if_splits)

lemma rank_key_absent_last: "rank_key asc (Some x) < rank_key asc None"
  by (simp add: rank_key_def)



lemma distinct_filter_nth:
  "distinct (filter P xs) \<Longrightarrow> a < length xs \<Longrightarrow> b < length xs \<Longrightarrow> P (xs ! a) \<Longrightarrow>
   xs ! a = xs ! b \<Longrightarrow> a = b"
proof (induction xs arbitrary: a b)
  case Nil
  then show ?case by simp
next
  case (Cons x xs)
  have d: "distinct (filter P xs)" using Cons.prems(1) by (simp split: if_splits)
  show ?case
  proof (cases a)
    case 0
    show ?thesis
    proof (cases b)
      case (Suc b')
      have "P x" using Cons.prems(4) 0 by simp
      then have "x \<notin> set (filter P xs)" using Cons.prems(1) by simp
      moreover have "xs ! b' = x" using Cons.prems(5) 0 Suc by simp
      moreover have "b' < length xs" using Cons.prems(3) Suc by simp
      ultimately show ?thesis using \<open>P x\<close> by (auto simp: in_set_conv_nth)
    qed (use 0 in simp)
  next
    case (Suc a')
    show ?thesis
    proof (cases b)
      case 0
      have px: "P x" using Cons.prems(4,5) 0 by simp
      then have "x \<notin> set (filter P xs)" using Cons.prems(1) by simp
      moreover have "xs ! a' = x" using Cons.prems(5) 0 Suc by simp
      moreover have "a' < length xs" using Cons.prems(2) Suc by simp
      ultimately show ?thesis using px by (auto simp: in_set_conv_nth)
    next
      case (Suc b')
      have "a' = b'"
        using Cons.IH [OF d, of a' b'] Cons.prems(2-5) \<open>a = Suc a'\<close> Suc by simp
      then show ?thesis using \<open>a = Suc a'\<close> Suc by simp
    qed
  qed
qed

section \<open>Properties of the rank derivation\<close>

lemmas frame_defs = obs_row_def untimed_row_def scores_frame_def nan_frame_def
  all_absent_frame_def two_absent_frame_def duplicate_frame_def nan_ranks_frame_def
  no_rows_frame_def untimed_frame_def partly_timed_frame_def

lemmas rank_defs = calculate_ranks_def observations_def grouped_rank_def time_periods_def
  group_ranks_def group_keys_def sorted_group_def group_members_def rank_key_def
  tied_ranks_def scatter_def upt_rec

lemmas prepare_defs = prepare_data_def validate_dataframe_def df_empty_def validate_ranks_def

lemma length_observations: "length (observations df) = length (rows df)"
  by (simp add: observations_def)

lemma observations_nth:
  "i < length (rows df) \<Longrightarrow>
   observations df ! i = (time_of (rows df ! i), value_of (rows df ! i))"
  by (simp add: observations_def)

lemma length_calculate_ranks: "length (calculate_ranks df asc m) = length (rows df)"
  by (simp add: calculate_ranks_def length_grouped_rank length_observations)

lemma calculate_ranks_nth:
  assumes "i < length (rows df)" and "time_of (rows df ! i) = Some t"
  shows "\<exists>p < length (sorted_group (observations df) asc t).
           sorted_group (observations df) asc t ! p = i \<and>
           calculate_ranks df asc m ! i =
             Some (tie_rank m (group_keys (observations df) asc t) p)"
proof -
  have i: "i < length (observations df)" using assms(1) by (simp add: length_observations)
  have t: "fst (observations df ! i) = Some t"
    using assms by (simp add: observations_nth)
  show ?thesis
    using grouped_rank_nth [OF i t, of asc m] unfolding calculate_ranks_def .
qed

lemma calculate_ranks_untimed:
  assumes "i < length (rows df)" and "time_of (rows df ! i) = None"
  shows "calculate_ranks df asc m ! i = None"
proof -
  have i: "i < length (observations df)" using assms(1) by (simp add: length_observations)
  have t: "fst (observations df ! i) = None"
    using assms by (simp add: observations_nth)
  show ?thesis
    using grouped_rank_absent [OF i t, of m asc] unfolding calculate_ranks_def .
qed

lemma calculate_ranks_key:
  assumes "i < length (rows df)" "p < length (sorted_group (observations df) asc t)"
    "sorted_group (observations df) asc t ! p = i"
  shows "group_keys (observations df) asc t ! p = rank_key asc (value_of (rows df ! i))"
  using assms by (simp add: group_keys_nth observations_nth)

lemma calculate_ranks_present:
  assumes "i < length (rows df)" and "time_of (rows df ! i) = Some t"
  shows "\<exists>r. calculate_ranks df asc m ! i = Some r \<and> 1 \<le> r"
proof -
  from calculate_ranks_nth [OF assms, of asc m] obtain p
    where p: "p < length (sorted_group (observations df) asc t)"
      and r: "calculate_ranks df asc m ! i =
          Some (tie_rank m (group_keys (observations df) asc t) p)"
    by blast
  have "p < length (group_keys (observations df) asc t)"
    using p by (simp add: length_group_keys)
  then have "1 \<le> tie_rank m (group_keys (observations df) asc t) p"
    by (rule tie_rank_ge_1)
  then show ?thesis using r by blast
qed

lemma calculate_ranks_None_iff:
  assumes "i < length (rows df)"
  shows "(calculate_ranks df asc m ! i = None) = (time_of (rows df ! i) = None)"
proof (cases "time_of (rows df ! i)")
  case None
  then show ?thesis using calculate_ranks_untimed [OF assms None, of asc m] by simp
next
  case (Some t)
  then show ?thesis using calculate_ranks_present [OF assms Some, of asc m] by auto
qed

lemma calculate_ranks_all_None:
  "list_all (\<lambda>r. r = None) (calculate_ranks df asc m) =
   list_all (\<lambda>r. time_of r = None) (rows df)"
proof -
  have "list_all (\<lambda>r. r = None) (calculate_ranks df asc m) \<longleftrightarrow>
        (\<forall>i < length (rows df). calculate_ranks df asc m ! i = None)"
    by (simp add: list_all_length length_calculate_ranks)
  also have "\<dots> \<longleftrightarrow> (\<forall>i < length (rows df). time_of (rows df ! i) = None)"
    using calculate_ranks_None_iff [of _ df asc m] by blast
  also have "\<dots> \<longleftrightarrow> list_all (\<lambda>r. time_of r = None) (rows df)"
    by (simp add: list_all_length)
  finally show ?thesis .
qed

lemma calculate_ranks_not_negative:
  "\<not> list_ex (\<lambda>r. r < 0) (map the (filter (\<lambda>r. r \<noteq> None) (calculate_ranks df asc m)))"
proof
  let ?ranks = "calculate_ranks df asc m"
  assume "list_ex (\<lambda>r. r < 0) (map the (filter (\<lambda>r. r \<noteq> None) ?ranks))"
  then obtain y where y: "y \<in> set ?ranks" "y \<noteq> None" "the y < 0"
    by (auto simp: list_ex_iff)
  from y(1) obtain i where i: "i < length (rows df)" "?ranks ! i = y"
    by (auto simp: in_set_conv_nth length_calculate_ranks)
  have "time_of (rows df ! i) \<noteq> None"
    using calculate_ranks_None_iff [OF i(1), of asc m] i(2) y(2) by auto
  then obtain t where "time_of (rows df ! i) = Some t" by auto
  from calculate_ranks_present [OF i(1) this, of asc m] i(2) y(3) show False by auto
qed

lemma calculate_ranks_validated:
  "validate_ranks (rows df) (calculate_ranks df asc m) =
     (if list_all (\<lambda>r. time_of r = None) (rows df) then Inl AllRanksNaN
      else if distinct (map (\<lambda>r. (time_of r, entity_of r)) (rows df)) then Inr ()
      else Inl DuplicateEntityTime)"
  using calculate_ranks_not_negative [of df asc m]
  by (simp add: validate_ranks_def calculate_ranks_all_None)

lemma validated_value_path:
  assumes "validate_dataframe df time_col entity_col rank_col (Some vc) = Inr ()"
  shows "prepare_data df time_col entity_col rank_col (Some vc) asc m =
     (if list_all (\<lambda>r. time_of r = None) (rows df) then Inl AllRanksNaN
      else if distinct (map (\<lambda>r. (time_of r, entity_of r)) (rows df))
        then Inr (sort_key
               (\<lambda>(r, k). ((if time_of r = None then 1 else 0 :: nat, time_of r), entity_of r))
               (zip (rows df) (calculate_ranks df asc m)))
      else Inl DuplicateEntityTime)"
  using assms by (simp add: prepare_data_def calculate_ranks_validated)

text \<open>
  C2 (as stated, refuted): the claim says rank derivation fails with InvalidInput
  whenever every value is absent. On a non-empty frame whose values are all absent,
  \<open>prepare_data\<close> with a value column returns ranks: absent values are ranked, last.
\<close>

theorem all_absent_values_ranked:
  "prepare_data all_absent_frame ''year'' ''team'' None (Some ''score'') True TieAverage =
   Inr [(obs_row 2020 ''A'' None, Some (3 / 2)), (obs_row 2020 ''B'' None, Some (3 / 2))]"
  by (simp add: frame_defs rank_defs prepare_defs)

text \<open>
  C2 (amended): \<open>prepare_data\<close> fails with an InvalidInput error whenever the frame has
  no rows; and, when the ranks are read from a rank column, whenever every rank is
  absent. When the ranks are derived from a value column, absent values do not cause
  the failure: a row is left without a rank exactly when its time cell is absent, and
  the all-absent error is raised exactly when the time cell of every row is absent.
\<close>

theorem prepare_data_absent_input:
  "(rows df = [] \<longrightarrow>
      prepare_data df time_col entity_col rank_col value_col asc m = Inl EmptyDataFrame \<and>
      kind_of EmptyDataFrame = InvalidInput) \<and>
   (validate_dataframe df time_col entity_col (Some rc) None = Inr () \<and>
    (\<forall>r \<in> set (rows df). rank_of r = None) \<longrightarrow>
      prepare_data df time_col entity_col (Some rc) None asc m = Inl AllRanksNaN \<and>
      kind_of AllRanksNaN = InvalidInput) \<and>
   (validate_dataframe df time_col entity_col rank_col (Some vc) = Inr () \<longrightarrow>
      (prepare_data df time_col entity_col rank_col (Some vc) asc m = Inl AllRanksNaN) =
      list_all (\<lambda>r. time_of r = None) (rows df)) \<and>
   (\<forall>i < length (rows df).
      (calculate_ranks df asc m ! i = None) = (time_of (rows df ! i) = None))"
proof (intro conjI impI allI)
  assume "rows df = []"
  then show "prepare_data df time_col entity_col rank_col value_col asc m = Inl EmptyDataFrame"
    by (simp add: prepare_data_def validate_dataframe_def df_empty_def)
next
  show "kind_of EmptyDataFrame = InvalidInput" by simp
next
  assume a: "validate_dataframe df time_col entity_col (Some rc) None = Inr () \<and>
    (\<forall>r \<in> set (rows df). rank_of r = None)"
  then have "list_all (\<lambda>r. r = None) (map rank_of (rows df))"
    by (simp add: list_all_iff)
  then show "prepare_data df time_col entity_col (Some rc) None asc m = Inl AllRanksNaN"
    using a by (simp add: prepare_data_def validate_ranks_def)
next
  show "kind_of AllRanksNaN = InvalidInput" by simp
next
  assume v: "validate_dataframe df time_col entity_col rank_col (Some vc) = Inr ()"
  show "(prepare_data df time_col entity_col rank_col (Some vc) asc m = Inl AllRanksNaN) =
      list_all (\<lambda>r. time_of r = None) (rows df)"
    by (simp add: validated_value_path [OF v])
next
  fix i assume "i < length (rows df)"
  then show "(calculate_ranks df asc m ! i = None) = (time_of (rows df ! i) = None)"
    by (rule calculate_ranks_None_iff)
qed

theorem prepare_data_absent_input_witness:
  "rows no_rows_frame = [] \<and>
   prepare_data no_rows_frame ''year'' ''team'' None (Some ''score'') True TieAverage =
     Inl EmptyDataFrame \<and>
   validate_dataframe nan_ranks_frame ''year'' ''team'' (Some ''rank'') None = Inr () \<and>
   list_all (\<lambda>r. rank_of r = None) (rows nan_ranks_frame) \<and>
   prepare_data nan_ranks_frame ''year'' ''team'' (Some ''rank'') None True TieAverage =
     Inl AllRanksNaN \<and>
   validate_dataframe all_absent_frame ''year'' ''team'' None (Some ''score'') = Inr () \<and>
   \<not> list_all (\<lambda>r. time_of r = None) (rows all_absent_frame) \<and>
   prepare_data all_absent_frame ''year'' ''team'' None (Some ''score'') True TieAverage \<noteq>
     Inl AllRanksNaN \<and>
   validate_dataframe untimed_frame ''year'' ''team'' None (Some ''score'') = Inr () \<and>
   list_all (\<lambda>r. time_of r = None) (rows untimed_frame) \<and>
   prepare_data untimed_frame ''year'' ''team'' None (Some ''score'') True TieAverage =
     Inl AllRanksNaN \<and>
   1 < length (rows partly_timed_frame) \<and>
   time_of (rows partly_timed_frame ! 1) = None \<and>
   calculate_ranks partly_timed_frame True TieAverage ! 1 = None"
proof -
  have a: "rows no_rows_frame = []" by (simp add: frame_defs)
  have b: "validate_dataframe nan_ranks_frame ''year'' ''team'' (Some ''rank'') None = Inr ()"
    by (simp add: frame_defs prepare_defs)
  have c: "\<forall>r \<in> set (rows nan_ranks_frame). rank_of r = None" by (simp add: frame_defs)
  have c': "list_all (\<lambda>r. rank_of r = None) (rows nan_ranks_frame)"
    using c by (simp add: list_all_iff)
  have d: "validate_dataframe all_absent_frame ''year'' ''team'' None (Some ''score'') = Inr ()"
    by (simp add: frame_defs prepare_defs)
  have e: "\<not> list_all (\<lambda>r. time_of r = None) (rows all_absent_frame)"
    by (simp add: frame_defs)
  have f: "validate_dataframe untimed_frame ''year'' ''team'' None (Some ''score'') = Inr ()"
    by (simp add: frame_defs prepare_defs)
  have g: "list_all (\<lambda>r. time_of r = None) (rows untimed_frame)"
    by (simp add: frame_defs)
  have h: "1 < length (rows partly_timed_frame)" by (simp add: frame_defs)
  have k: "time_of (rows partly_timed_frame ! 1) = None" by (simp add: frame_defs)
  from prepare_data_absent_input
    [of no_rows_frame "''year''" "''team''" None "Some ''score''" True TieAverage "''rank''" "''score''"] a
  have 1: "prepare_data no_rows_frame ''year'' ''team'' None (Some ''score'') True TieAverage =
     Inl EmptyDataFrame" by blast
  from prepare_data_absent_input
    [of nan_ranks_frame "''year''" "''team''" None None True TieAverage "''rank''" "''score''"] b c
  have 2: "prepare_data nan_ranks_frame ''year'' ''team'' (Some ''rank'') None True TieAverage =
     Inl AllRanksNaN" by blast
  from prepare_data_absent_input
    [of all_absent_frame "''year''" "''team''" None None True TieAverage "''rank''" "''score''"] d e
  have 3: "prepare_data all_absent_frame ''year'' ''team'' None (Some ''score'') True TieAverage \<noteq>
     Inl AllRanksNaN" by blast
  from prepare_data_absent_input
    [of untimed_frame "''year''" "''team''" None None True TieAverage "''rank''" "''score''"] f g
  have 4: "prepare_data untimed_frame ''year'' ''team'' None (Some ''score'') True TieAverage =
     Inl AllRanksNaN" by blast
  from prepare_data_absent_input
    [of partly_timed_frame "''year''" "''team''" None None True TieAverage "''rank''" "''score''"] h k
  have 5: "calculate_ranks partly_timed_frame True TieAverage ! 1 = None" by blast
  from a b c' d e f g h k 1 2 3 4 5 show ?thesis by blast
qed

text \<open>
  C7 (as stated, refuted): the claim says rank derivation fails with DuplicateKey
  whenever two rows share their (time, entity) pair. In a frame whose two rows have an
  absent time cell and the same entity, no row receives a rank, and the earlier check
  of \<open>_validate_ranks\<close> fails first: the error is the all-absent InvalidInput error.
\<close>

theorem untimed_duplicates_not_reported:
  "map time_of (rows untimed_frame) = [None, None] \<and>
   map entity_of (rows untimed_frame) = [''A'', ''A''] \<and>
   prepare_data untimed_frame ''year'' ''team'' None (Some ''score'') True TieAverage =
     Inl AllRanksNaN \<and>
   kind_of AllRanksNaN = InvalidInput"
  by (simp add: frame_defs rank_defs prepare_defs)

text \<open>
  C7 (amended): when ranks are derived from a value column, the call passes
  \<open>validate_dataframe\<close>, its time and entity columns are not the column \<open>_rank\<close>, and
  at least one row has a time cell that is present, \<open>prepare_data\<close> fails with the
  DuplicateKey error whenever two rows share their (time, entity) pair and returns a
  result whenever all pairs are distinct. When the time cell of every row is absent it
  fails with the all-absent InvalidInput error, whatever the pairs.
\<close>

theorem duplicate_key_rejected:
  assumes "validate_dataframe df time_col entity_col rank_col (Some vc) = Inr ()"
    and "time_col \<noteq> ''_rank''" and "entity_col \<noteq> ''_rank''"
  shows "(\<not> list_all (\<lambda>r. time_of r = None) (rows df) \<longrightarrow>
            (\<not> distinct (map (\<lambda>r. (time_of r, entity_of r)) (rows df)) \<longrightarrow>
               prepare_data df time_col entity_col rank_col (Some vc) asc m =
                 Inl DuplicateEntityTime \<and>
               kind_of DuplicateEntityTime = DuplicateKey) \<and>
            (distinct (map (\<lambda>r. (time_of r, entity_of r)) (rows df)) \<longrightarrow>
               (\<exists>res. prepare_data df time_col entity_col rank_col (Some vc) asc m = Inr res))) \<and>
         (list_all (\<lambda>r. time_of r = None) (rows df) \<longrightarrow>
            prepare_data df time_col entity_col rank_col (Some vc) asc m = Inl AllRanksNaN \<and>
            kind_of AllRanksNaN = InvalidInput)"
  by (simp add: validated_value_path [OF assms(1)])

theorem duplicate_key_rejected_witness:
  "validate_dataframe duplicate_frame ''year'' ''team'' None (Some ''score'') = Inr () \<and>
   ''year'' \<noteq> ''_rank'' \<and> ''team'' \<noteq> ''_rank'' \<and>
   \<not> list_all (\<lambda>r. time_of r = None) (rows duplicate_frame) \<and>
   \<not> distinct (map (\<lambda>r. (time_of r, entity_of r)) (rows duplicate_frame)) \<and>
   prepare_data duplicate_frame ''year'' ''team'' None (Some ''score'') True TieAverage =
     Inl DuplicateEntityTime \<and>
   validate_dataframe scores_frame ''year'' ''team'' None (Some ''score'') = Inr () \<and>
   \<not> list_all (\<lambda>r. time_of r = None) (rows scores_frame) \<and>
   distinct (map (\<lambda>r. (time_of r, entity_of r)) (rows scores_frame)) \<and>
   (\<exists>res. prepare_data scores_frame ''year'' ''team'' None (Some ''score'') True TieAverage = Inr res) \<and>
   validate_dataframe untimed_frame ''year'' ''team'' None (Some ''score'') = Inr () \<and>
   list_all (\<lambda>r. time_of r = None) (rows untimed_frame) \<and>
   prepare_data untimed_frame ''year'' ''team'' None (Some ''score'') True TieAverage =
     Inl AllRanksNaN"
proof -
  have y: "''year'' \<noteq> ''_rank''" and t: "''team'' \<noteq> ''_rank''" by simp_all
  have a: "validate_dataframe duplicate_frame ''year'' ''team'' None (Some ''score'') = Inr ()"
    by (simp add: frame_defs prepare_defs)
  have a': "\<not> list_all (\<lambda>r. time_of r = None) (rows duplicate_frame)"
    by (simp add: frame_defs)
  have b: "\<not> distinct (map (\<lambda>r. (time_of r, entity_of r)) (rows duplicate_frame))"
    by (simp add: frame_defs)
  have c: "validate_dataframe scores_frame ''year'' ''team'' None (Some ''score'') = Inr ()"
    by (simp add: frame_defs prepare_defs)
  have c': "\<not> list_all (\<lambda>r. time_of r = None) (rows scores_frame)"
    by (simp add: frame_defs)
  have d: "distinct (map (\<lambda>r. (time_of r, entity_of r)) (rows scores_frame))"
    by (simp add: frame_defs)
  have e: "validate_dataframe untimed_frame ''year'' ''team'' None (Some ''score'') = Inr ()"
    by (simp add: frame_defs prepare_defs)
  have e': "list_all (\<lambda>r. time_of r = None) (rows untimed_frame)"
    by (simp add: frame_defs)
  from duplicate_key_rejected [OF a y t, of True TieAverage] a' b
  have 1: "prepare_data duplicate_frame ''year'' ''team'' None (Some ''score'') True TieAverage =
     Inl DuplicateEntityTime" by blast
  from duplicate_key_rejected [OF c y t, of True TieAverage] c' d
  have 2: "\<exists>res. prepare_data scores_frame ''year'' ''team'' None (Some ''score'') True TieAverage = Inr res"
    by blast
  from duplicate_key_rejected [OF e y t, of True TieAverage] e'
  have 3: "prepare_data untimed_frame ''year'' ''team'' None (Some ''score'') True TieAverage =
     Inl AllRanksNaN" by blast
  from y t a a' b c c' d e e' 1 2 3 show ?thesis by blast
qed

text \<open>
  C6: in both directions and for every tie method, a row whose value is absent receives
  a rank strictly after (greater than) the rank of every row of the same time period
  whose value is present.
\<close>

theorem absent_values_ranked_last:
  assumes "i < length (rows df)" and "j < length (rows df)"
    and "time_of (rows df ! i) = time_of (rows df ! j)"
    and "time_of (rows df ! i) \<noteq> None"
    and "value_of (rows df ! i) = None" and "value_of (rows df ! j) \<noteq> None"
  shows "\<exists>ri rj. calculate_ranks df asc m ! i = Some ri \<and>
                 calculate_ranks df asc m ! j = Some rj \<and> rj < ri"
proof -
  from assms(4) obtain t where ti: "time_of (rows df ! i) = Some t" by auto
  then have tj: "time_of (rows df ! j) = Some t" using assms(3) by simp
  let ?g = "sorted_group (observations df) asc t"
  let ?ks = "group_keys (observations df) asc t"
  from calculate_ranks_nth [OF assms(1) ti, of asc m] obtain p
    where p: "p < length ?g" "?g ! p = i"
      and ri: "calculate_ranks df asc m ! i = Some (tie_rank m ?ks p)"
    by blast
  from calculate_ranks_nth [OF assms(2) tj, of asc m] obtain q
    where q: "q < length ?g" "?g ! q = j"
      and rj: "calculate_ranks df asc m ! j = Some (tie_rank m ?ks q)"
    by blast
  from assms(6) obtain v where v: "value_of (rows df ! j) = Some v" by auto
  have kp: "?ks ! p = rank_key asc None"
    using calculate_ranks_key [OF assms(1) p] assms(5) by simp
  have kq: "?ks ! q = rank_key asc (Some v)"
    using calculate_ranks_key [OF assms(2) q] v by simp
  have less: "?ks ! q < ?ks ! p"
    unfolding kp kq by (rule rank_key_absent_last)
  have "tie_rank m ?ks q < tie_rank m ?ks p"
  proof (rule tie_rank_less)
    show "sorted ?ks" by (rule sorted_group_keys)
    show "q < length ?ks" using q(1) by (simp add: length_group_keys)
    show "p < length ?ks" using p(1) by (simp add: length_group_keys)
    show "?ks ! q < ?ks ! p" by (rule less)
  qed
  then show ?thesis using ri rj by blast
qed

theorem absent_values_ranked_last_witness:
  "1 < length (rows nan_frame) \<and> 0 < length (rows nan_frame) \<and>
   time_of (rows nan_frame ! 1) = time_of (rows nan_frame ! 0) \<and>
   time_of (rows nan_frame ! 1) \<noteq> None \<and>
   value_of (rows nan_frame ! 1) = None \<and> value_of (rows nan_frame ! 0) \<noteq> None \<and>
   (\<exists>ri rj. calculate_ranks nan_frame False TieAverage ! 1 = Some ri \<and>
            calculate_ranks nan_frame False TieAverage ! 0 = Some rj \<and> rj < ri)"
proof -
  have a: "1 < length (rows nan_frame)" by (simp add: frame_defs)
  have b: "0 < length (rows nan_frame)" by (simp add: frame_defs)
  have c: "time_of (rows nan_frame ! 1) = time_of (rows nan_frame ! 0)" by (simp add: frame_defs)
  have c': "time_of (rows nan_frame ! 1) \<noteq> None" by (simp add: frame_defs)
  have d: "value_of (rows nan_frame ! 1) = None" by (simp add: frame_defs)
  have e: "value_of (rows nan_frame ! 0) \<noteq> None" by (simp add: frame_defs)
  from absent_values_ranked_last [OF a b c c' d e, of False TieAverage] a b c c' d e
  show ?thesis by blast
qed

text \<open>
  C8: the rank series has one entry per input row, in input order: the entry at position
  \<open>i\<close> is the rank that the row at input position \<open>i\<close> received at its place \<open>p\<close>
  in the sorted group of its time period (and NaN when the row has no time period, its
  time cell being absent).
\<close>

theorem ranks_follow_input_order:
  "length (calculate_ranks df asc m) = length (rows df) \<and>
   (\<forall>i < length (rows df).
      case time_of (rows df ! i) of
        None \<Rightarrow> calculate_ranks df asc m ! i = None
      | Some t \<Rightarrow>
          (\<exists>p < length (sorted_group (observations df) asc t).
             sorted_group (observations df) asc t ! p = i \<and>
             calculate_ranks df asc m ! i =
               Some (tie_rank m (group_keys (observations df) asc t) p)))"
proof (intro conjI allI impI)
  show "length (calculate_ranks df asc m) = length (rows df)"
    by (rule length_calculate_ranks)
next
  fix i assume i: "i < length (rows df)"
  show "case time_of (rows df ! i) of
        None \<Rightarrow> calculate_ranks df asc m ! i = None
      | Some t \<Rightarrow>
          (\<exists>p < length (sorted_group (observations df) asc t).
             sorted_group (observations df) asc t ! p = i \<and>
             calculate_ranks df asc m ! i =
               Some (tie_rank m (group_keys (observations df) asc t) p))"
  proof (cases "time_of (rows df ! i)")
    case None
    then show ?thesis using calculate_ranks_untimed [OF i None, of asc m] by simp
  next
    case (Some t)
    then show ?thesis using calculate_ranks_nth [OF i Some, of asc m] by simp
  qed
qed

theorem ranks_follow_input_order_witness:
  "length (calculate_ranks partly_timed_frame False TieAverage) =
     length (rows partly_timed_frame) \<and>
   2 < length (rows partly_timed_frame) \<and>
   time_of (rows partly_timed_frame ! 1) = None \<and>
   calculate_ranks partly_timed_frame False TieAverage ! 1 = None \<and>
   time_of (rows partly_timed_frame ! 2) = Some 2020 \<and>
   (\<exists>p < length (sorted_group (observations partly_timed_frame) False 2020).
      sorted_group (observations partly_timed_frame) False 2020 ! p = 2 \<and>
      calculate_ranks partly_timed_frame False TieAverage ! 2 =
        Some (tie_rank TieAverage (group_keys (observations partly_timed_frame) False 2020) p))"
proof -
  have a: "2 < length (rows partly_timed_frame)" by (simp add: frame_defs)
  have b: "1 < length (rows partly_timed_frame)" by (simp add: frame_defs)
  have t1: "time_of (rows partly_timed_frame ! 1) = None" by (simp add: frame_defs)
  have t2: "time_of (rows partly_timed_frame ! 2) = Some 2020" by (simp add: frame_defs)
  from ranks_follow_input_order [of partly_timed_frame False TieAverage] have len: "length (calculate_ranks partly_timed_frame False TieAverage) =
     length (rows partly_timed_frame)" by blast
  from ranks_follow_input_order [of partly_timed_frame False TieAverage] b have "case time_of (rows partly_timed_frame ! 1) of
        None \<Rightarrow> calculate_ranks partly_timed_frame False TieAverage ! 1 = None
      | Some t \<Rightarrow>
          (\<exists>p < length (sorted_group (observations partly_timed_frame) False t).
             sorted_group (observations partly_timed_frame) False t ! p = 1 \<and>
             calculate_ranks partly_timed_frame False TieAverage ! 1 =
               Some (tie_rank TieAverage (group_keys (observations partly_timed_frame) False t) p))"
    by blast
  then have r1: "calculate_ranks partly_timed_frame False TieAverage ! 1 = None"
    unfolding t1 by simp
  from ranks_follow_input_order [of partly_timed_frame False TieAverage] a have "case time_of (rows partly_timed_frame ! 2) of
        None \<Rightarrow> calculate_ranks partly_timed_frame False TieAverage ! 2 = None
      | Some t \<Rightarrow>
          (\<exists>p < length (sorted_group (observations partly_timed_frame) False t).
             sorted_group (observations partly_timed_frame) False t ! p = 2 \<and>
             calculate_ranks partly_timed_frame False TieAverage ! 2 =
               Some (tie_rank TieAverage (group_keys (observations partly_timed_frame) False t) p))"
    by blast
  then have r2: "\<exists>p < length (sorted_group (observations partly_timed_frame) False 2020).
      sorted_group (observations partly_timed_frame) False 2020 ! p = 2 \<and>
      calculate_ranks partly_timed_frame False TieAverage ! 2 =
        Some (tie_rank TieAverage (group_keys (observations partly_timed_frame) False 2020) p)"
    unfolding t2 by simp
  from len a t1 r1 t2 r2 show ?thesis by blast
qed

text \<open>
  C9 (as stated, refuted): the claim asks only that no two present values of a time
  period be equal. Two absent values in one period tie with each other: with values
  10, NaN, NaN the method \<open>average\<close> gives 1, 2.5, 2.5 and the method \<open>first\<close> gives
  1, 2, 3.
\<close>

theorem absent_values_tie:
  "map value_of (rows two_absent_frame) = [Some 10, None, None] \<and>
   calculate_ranks two_absent_frame True TieAverage = [Some 1, Some (5 / 2), Some (5 / 2)] \<and>
   calculate_ranks two_absent_frame True TieFirst = [Some 1, Some 2, Some 3]"
  by (simp add: frame_defs rank_defs)

text \<open>
  C9 (amended): for every input in which no two observations of the same time period
  have equal values, two absent values counting as equal (so a period holds at most one
  absent value), all five tie methods produce the same ranks. Observations whose time
  cell is absent are in no period and are not constrained.
\<close>

theorem tie_methods_agree:
  assumes "distinct (filter (\<lambda>ob. fst ob \<noteq> None) (observations df))"
  shows "calculate_ranks df asc m = calculate_ranks df asc m'"
proof (rule nth_equalityI)
  show "length (calculate_ranks df asc m) = length (calculate_ranks df asc m')"
    by (simp add: length_calculate_ranks)
next
  fix i assume "i < length (calculate_ranks df asc m)"
  then have i: "i < length (rows df)" by (simp add: length_calculate_ranks)
  show "calculate_ranks df asc m ! i = calculate_ranks df asc m' ! i"
  proof (cases "time_of (rows df ! i)")
    case None
    then show ?thesis
      using calculate_ranks_untimed [OF i None, of asc m]
        calculate_ranks_untimed [OF i None, of asc m'] by simp
  next
    case (Some t)
    let ?obs = "observations df"
    let ?g = "sorted_group ?obs asc t"
    let ?ks = "group_keys ?obs asc t"
    from calculate_ranks_nth [OF i Some, of asc m] obtain p
      where p: "p < length ?g" "?g ! p = i"
        and r: "calculate_ranks df asc m ! i = Some (tie_rank m ?ks p)"
      by blast
    from calculate_ranks_nth [OF i Some, of asc m'] obtain q
      where q: "q < length ?g" "?g ! q = i"
        and r': "calculate_ranks df asc m' ! i = Some (tie_rank m' ?ks q)"
      by blast
    have "?g ! p = ?g ! q" using p(2) q(2) by simp
    then have "p = q"
      using nth_eq_iff_index_eq [OF distinct_sorted_group [of ?obs asc t] p(1) q(1)] by blast
    have inj: "inj_on (\<lambda>j. rank_key asc (snd (?obs ! j))) (set ?g)"
    proof (rule inj_onI)
      fix a b assume a: "a \<in> set ?g" and b: "b \<in> set ?g"
        and e: "rank_key asc (snd (?obs ! a)) = rank_key asc (snd (?obs ! b))"
      from a b have la: "a < length ?obs" and lb: "b < length ?obs"
        and ta: "fst (?obs ! a) = Some t" and tb: "fst (?obs ! b) = Some t"
        by (simp_all add: set_sorted_group)
      from e have "snd (?obs ! a) = snd (?obs ! b)" by (rule rank_key_inj)
      then have eq: "?obs ! a = ?obs ! b" using ta tb by (simp add: prod_eq_iff)
      have pa: "fst (?obs ! a) \<noteq> None" using ta by simp
      show "a = b" using assms la lb pa eq by (rule distinct_filter_nth)
    qed
    have dk: "distinct ?ks"
      unfolding group_keys_def using inj distinct_sorted_group [of ?obs asc t]
      by (simp add: distinct_map)
    have pk: "p < length ?ks" using p(1) by (simp add: length_group_keys)
    have "tie_rank m ?ks p = real (Suc p)" using dk pk by (rule tie_rank_distinct)
    moreover have "tie_rank m' ?ks p = real (Suc p)" using dk pk by (rule tie_rank_distinct)
    ultimately show ?thesis using r r' \<open>p = q\<close> by simp
  qed
qed

theorem tie_methods_agree_witness:
  "distinct (filter (\<lambda>ob. fst ob \<noteq> None) (observations scores_frame)) \<and>
   calculate_ranks scores_frame False TieAverage = calculate_ranks scores_frame False TieDense"
proof -
  have d: "distinct (filter (\<lambda>ob. fst ob \<noteq> None) (observations scores_frame))"
    by (simp add: frame_defs observations_def)
  from tie_methods_agree [OF d, of False TieAverage TieDense] d show ?thesis by blast
qed

end
